theory Spec2Isabelle
  imports
    Main
    "HOL-Library.Sublist"
    "HOL-Library.Char_ord"
    "HOL-Library.List_Lexorder"
    "HOL-Library.Multiset"
begin

section \<open>Texts and paths\<close>

text \<open>
  A Python \<^verbatim>\<open>str\<close> is represented by the bytes (\<^typ>\<open>char\<close>) of its UTF-8 form,
  a lone surrogate by its three-byte form (\<^verbatim>\<open>os.walk\<close> gives a file name with
  a byte that is not UTF-8 as a text with the surrogate U+DC80..U+DCFF in its
  place). In this form the order by bytes is the order by code points, so
  texts are ordered by byte value and lists lexicographically, a proper
  prefix being smaller: the order of Python on strings and on tuples.

  \<open>utf8 s\<close>: the text has no surrogate, so that encoding it with the strict
  \<^verbatim>\<open>utf-8\<close> codec succeeds; with a surrogate it raises \<^verbatim>\<open>UnicodeEncodeError\<close>.
  The bytes are those of well-formed UTF-8.
\<close>

definition between :: "nat \<Rightarrow> nat \<Rightarrow> char \<Rightarrow> bool" where
  "between lo hi c = (lo \<le> of_char c \<and> of_char c \<le> (hi :: nat))"

fun utf8 :: "string \<Rightarrow> bool" where
  "utf8 [] = True"
| "utf8 (a # s) =
     (if between 0x00 0x7F a then utf8 s
      else if between 0xC2 0xDF a then
        (case s of b # s' \<Rightarrow> between 0x80 0xBF b \<and> utf8 s' | _ \<Rightarrow> False)
      else if between 0xE0 0xEF a then
        (case s of
           b # c # s' \<Rightarrow>
             (if between 0xE0 0xE0 a then between 0xA0 0xBF b
              else if between 0xED 0xED a then between 0x80 0x9F b
              else between 0x80 0xBF b)
             \<and> between 0x80 0xBF c \<and> utf8 s'
         | _ \<Rightarrow> False)
      else if between 0xF0 0xF4 a then
        (case s of
           b # c # d # s' \<Rightarrow>
             (if between 0xF0 0xF0 a then between 0x90 0xBF b
              else if between 0xF4 0xF4 a then between 0x80 0x8F b
              else between 0x80 0xBF b)
             \<and> between 0x80 0xBF c \<and> between 0x80 0xBF d \<and> utf8 s'
         | _ \<Rightarrow> False)
      else False)"

text \<open>
  A \<^verbatim>\<open>pathlib.Path\<close> is its tuple of parts. An absolute POSIX path has its
  anchor, \<^verbatim>\<open>'/'\<close> or \<^verbatim>\<open>'//'\<close>, as first part; a relative one has none.
  \<^verbatim>\<open>PurePath.__lt__\<close> compares the tuples of parts, so that \<^verbatim>\<open>sorted\<close> on a
  list of paths is \<^const>\<open>sort\<close> on the lists of parts.
\<close>

type_synonym path = "string list"

fun join :: "string list \<Rightarrow> string" where
  "join [] = []"
| "join [p] = p"
| "join (p # q # ps) = p @ ''/'' @ join (q # ps)"

definition is_anchor :: "string \<Rightarrow> bool" where
  "is_anchor a = (a = ''/'' \<or> a = ''//'')"

definition is_absolute :: "path \<Rightarrow> bool" where
  "is_absolute p = (case p of [] \<Rightarrow> False | a # ps \<Rightarrow> is_anchor a)"

text \<open>\<^verbatim>\<open>str(path)\<close>: anchor, then the parts joined by the separator; \<^verbatim>\<open>'.'\<close> for
  the path without parts.\<close>

definition path_str :: "path \<Rightarrow> string" where
  "path_str p =
     (case p of
        [] \<Rightarrow> ''.''
      | a # ps \<Rightarrow> if is_anchor a then a @ join ps else join (a # ps))"

datatype exn = ValueError path path | OSError string | UnicodeEncodeError string

text \<open>\<^verbatim>\<open>PurePath.relative_to\<close>: the other path's parts must be the first parts
  of this one (with no parts at all, this path must not be anchored); the
  result is what follows them.\<close>

definition relative_to :: "path \<Rightarrow> path \<Rightarrow> exn + path" where
  "relative_to p other =
     (if (if other = [] then is_absolute p else take (length other) p \<noteq> other)
      then Inl (ValueError p other)
      else Inr (drop (length other) p))"

section \<open>The directory tree and \<^verbatim>\<open>os.walk\<close>\<close>

text \<open>
  What \<^verbatim>\<open>os.scandir\<close> sees: a directory is the list of its entries in listing
  order, each a name and either something for which \<^verbatim>\<open>is_dir()\<close> is true or
  something for which it is not (a file, a link to a file, a dangling link).
  A directory can be listed or not (no permission), and is reached by its
  own name or through a symbolic link; the entries are those of the
  directory the link leads to.
\<close>

datatype access = Listable | Unlistable

datatype linkage = Real | Symlink

datatype node = File | Dir access linkage "(string \<times> node) list"

fun is_dir :: "node \<Rightarrow> bool" where
  "is_dir File = False"
| "is_dir (Dir a l es) = True"

fun islink :: "node \<Rightarrow> bool" where
  "islink File = False"
| "islink (Dir a l es) = (l = Symlink)"

definition dirs_of :: "(string \<times> node) list \<Rightarrow> string list" where
  "dirs_of es = map fst (filter (\<lambda>e. is_dir (snd e)) es)"

definition nondirs_of :: "(string \<times> node) list \<Rightarrow> string list" where
  "nondirs_of es = map fst (filter (\<lambda>e. \<not> is_dir (snd e)) es)"

text \<open>
  \<^verbatim>\<open>os.walk(top)\<close> with its defaults (top down, \<^verbatim>\<open>onerror=None\<close>,
  \<^verbatim>\<open>followlinks=False\<close>), with the caller's in-place pruning
  \<^verbatim>\<open>dirnames[:] = [d for d in dirnames if keep d]\<close> done between the yield of
  a directory's triple and the descent into its subdirectories. A top that
  cannot be listed (it is not a directory, or \<^verbatim>\<open>scandir\<close> raises) yields
  nothing, silently. The descent skips the names for which \<^verbatim>\<open>islink\<close> holds;
  the top itself is listed through a link.
\<close>

fun os_walk :: "(string \<Rightarrow> bool) \<Rightarrow> path \<Rightarrow> node \<Rightarrow> (path \<times> string list \<times> string list) list"
  and walk_into :: "(string \<Rightarrow> bool) \<Rightarrow> path \<Rightarrow> (string \<times> node) list \<Rightarrow> (path \<times> string list \<times> string list) list"
where
  "os_walk keep top_path File = []"
| "os_walk keep top_path (Dir a l es) =
     (if a = Unlistable then []
      else (top_path, filter keep (dirs_of es), nondirs_of es) # walk_into keep top_path es)"
| "walk_into keep top_path [] = []"
| "walk_into keep top_path ((d, t) # es) =
     (if is_dir t \<and> keep d \<and> \<not> islink t then os_walk keep (top_path @ [d]) t else [])
     @ walk_into keep top_path es"

section \<open>Discovery\<close>

definition SKIP_DIRS :: "string set" where
  "SKIP_DIRS =
     {''node_modules'', ''dist'', ''build'', ''.next'', ''out'', ''coverage'',
      ''.turbo'', ''.cache'', ''__pycache__'', ''.git''}"

definition endswith :: "string \<Rightarrow> string \<Rightarrow> bool" where
  "endswith s suf = suffix suf s"

definition is_ts :: "string \<Rightarrow> bool" where
  "is_ts filename = (endswith filename ''.ts'' \<or> endswith filename ''.tsx'')"

definition collect :: "(path \<times> string list \<times> string list) list \<Rightarrow> path list" where
  "collect triples =
     concat (map (\<lambda>(dirpath, dirnames, filenames).
                    map (\<lambda>filename. dirpath @ [filename]) (filter is_ts filenames))
                 triples)"

definition find_ts_files :: "path \<Rightarrow> node \<Rightarrow> path list" where
  "find_ts_files root_path t =
     sort (collect (os_walk (\<lambda>d. d \<notin> SKIP_DIRS) root_path t))"

section \<open>Combiner\<close>

text \<open>
  The environment of a run: whether opening the output file for writing
  fails; what \<^verbatim>\<open>read_text\<close> gives for a path at the moment the loop reaches
  it, the text (\<open>Inr\<close>) or the description of the exception raised
  (\<open>Inl\<close>); and the error number of \<^verbatim>\<open>os.stat\<close> on the root when it fails.
  The world is what the process has printed and the output file: \<open>None\<close>
  when there is none, its text otherwise.
\<close>

datatype errno = ENOENT | ENOTDIR | EBADF | ELOOP | ENAMETOOLONG | EACCES

record env =
  open_error :: "string option"
  read_text :: "path \<Rightarrow> string + string"
  stat_errno :: errno

record world =
  stdout :: "string list"
  out_file :: "string option"

definition separator :: string where
  "separator = replicate 80 (CHR ''='')"

text \<open>
  The body of the loop for one file, appending to the text written so far.
  The output file is open with the strict \<^verbatim>\<open>utf-8\<close> codec, and a write
  encodes its text at once: the header line raises when the relative path
  has a surrogate (the rest of the line is ASCII), after the first separator
  line has been written. The text that \<^verbatim>\<open>read_text\<close> decoded and the
  description of an exception have none. A failure of the device under a
  write is not part of the model. An exception comes with what the file
  holds when it escapes.
\<close>

definition write_file :: "env \<Rightarrow> path \<Rightarrow> path \<Rightarrow> string \<Rightarrow> (exn \<times> string) + string" where
  "write_file e root_path ts_file out =
     (case relative_to ts_file root_path of
        Inl err \<Rightarrow> Inl (err, out)
      | Inr relative_path \<Rightarrow>
          let out1 = out @ ''\<newline>'' @ separator @ ''\<newline>''
          in if \<not> utf8 (path_str relative_path)
             then Inl (UnicodeEncodeError (path_str relative_path), out1)
             else
               let out2 = out1 @ ''// FILE: '' @ path_str relative_path @ ''\<newline>'';
                   out3 = out2 @ separator @ ''\<newline>\<newline>''
               in (case read_text e ts_file of
                     Inr content \<Rightarrow> Inr (out3 @ content @ ''\<newline>'')
                   | Inl msg \<Rightarrow> Inr (out3 @ ''// ERROR reading file: '' @ msg @ ''\<newline>'')))"

text \<open>The loop over the files; an exception outside the \<^verbatim>\<open>try\<close> ends it.\<close>

fun write_all :: "env \<Rightarrow> path \<Rightarrow> path list \<Rightarrow> string \<Rightarrow> exn option \<times> string" where
  "write_all e root_path [] out = (None, out)"
| "write_all e root_path (ts_file # rest) out =
     (case write_file e root_path ts_file out of
        Inl (err, out') \<Rightarrow> (Some err, out')
      | Inr out' \<Rightarrow> write_all e root_path rest out')"

definition combine_files :: "env \<Rightarrow> path list \<Rightarrow> path \<Rightarrow> world \<Rightarrow> exn option \<times> world" where
  "combine_files e ts_files root_path w =
     (case open_error e of
        Some msg \<Rightarrow> (Some (OSError msg), w)
      | None \<Rightarrow>
          (case write_all e root_path ts_files [] of
             (r, s) \<Rightarrow> (r, w\<lparr>out_file := Some s\<rparr>)))"

section \<open>Entry point\<close>

fun str_nat :: "nat \<Rightarrow> string" where
  "str_nat n =
     (if n < 10 then [char_of (48 + n)]
      else str_nat (n div 10) @ [char_of (48 + n mod 10)])"

definition print :: "string \<Rightarrow> world \<Rightarrow> world" where
  "print line w = w\<lparr>stdout := stdout w @ [line]\<rparr>"

text \<open>\<^verbatim>\<open>Path.exists\<close> takes these error numbers of \<^verbatim>\<open>os.stat\<close> as absence and
  raises the \<^verbatim>\<open>OSError\<close> again for any other.\<close>

definition ignored_errno :: "errno \<Rightarrow> bool" where
  "ignored_errno n = (n = ENOENT \<or> n = ENOTDIR \<or> n = EBADF \<or> n = ELOOP)"

fun strerror :: "errno \<Rightarrow> string" where
  "strerror ENOENT = ''[Errno 2] No such file or directory''"
| "strerror ENOTDIR = ''[Errno 20] Not a directory''"
| "strerror EBADF = ''[Errno 9] Bad file descriptor''"
| "strerror ELOOP = ''[Errno 40] Too many levels of symbolic links''"
| "strerror ENAMETOOLONG = ''[Errno 36] File name too long''"
| "strerror EACCES = ''[Errno 13] Permission denied''"

text \<open>
  \<^verbatim>\<open>main\<close> from the existence check on, once the arguments are parsed and
  the two paths resolved: \<open>root_path\<close> is the resolved root, \<open>root_node\<close>
  what \<^verbatim>\<open>os.stat\<close> finds there (\<open>None\<close>: it raises, with the error number of
  the environment), and \<open>output_path\<close> the output name under the working
  directory. The result is the value returned, or the exception that
  escapes.
\<close>

definition main :: "env \<Rightarrow> path \<Rightarrow> node option \<Rightarrow> path \<Rightarrow> world \<Rightarrow> (exn + int) \<times> world" where
  "main e root_path root_node output_path w =
     (case root_node of
        None \<Rightarrow>
          if ignored_errno (stat_errno e)
          then (Inr 1, print (''Error: Path '' @ [CHR 0x27] @ path_str root_path @ [CHR 0x27] @ '' does not exist'') w)
          else (Inl (OSError (strerror (stat_errno e))), w)
      | Some t \<Rightarrow>
          let w1 = print (''Searching for TypeScript files in: '' @ path_str root_path) w;
              ts_files = find_ts_files root_path t
          in if ts_files = [] then (Inr 0, print ''No TypeScript files found'' w1)
             else
               let w2 = print (''Found '' @ str_nat (length ts_files) @ '' TypeScript files'') w1
               in (case combine_files e ts_files root_path w2 of
                     (Some err, w3) \<Rightarrow> (Inl err, w3)
                   | (None, w3) \<Rightarrow> (Inr 0, print (''Combined into: '' @ path_str output_path) w3)))"

text \<open>\<^verbatim>\<open>exit(main())\<close>: the status of the process; an exception that escapes
  ends it with status 1.\<close>

definition exit_status :: "exn + int \<Rightarrow> int" where
  "exit_status r = (case r of Inl err \<Rightarrow> 1 | Inr code \<Rightarrow> code)"

section \<open>Well-formed trees and the files of a tree\<close>

text \<open>A directory entry's name is not empty, has no separator and is neither
  \<^verbatim>\<open>'.'\<close> nor \<^verbatim>\<open>'..'\<close>; the names of one directory are distinct.\<close>

definition valid_name :: "string \<Rightarrow> bool" where
  "valid_name n = (n \<noteq> [] \<and> CHR ''/'' \<notin> set n \<and> n \<noteq> ''.'' \<and> n \<noteq> ''..'')"

fun wf_tree :: "node \<Rightarrow> bool"
  and wf_entries :: "(string \<times> node) list \<Rightarrow> bool"
where
  "wf_tree File = True"
| "wf_tree (Dir a l es) = (distinct (map fst es) \<and> wf_entries es)"
| "wf_entries [] = True"
| "wf_entries ((n, t) # es) = (valid_name n \<and> wf_tree t \<and> wf_entries es)"

text \<open>\<open>file_in t p\<close>: following the names \<open>p\<close> from the directory \<open>t\<close> leads
  to an entry that is not a directory: \<open>p\<close> is a file under \<open>t\<close>.\<close>

fun file_in :: "node \<Rightarrow> path \<Rightarrow> bool"
  and entry_in :: "(string \<times> node) list \<Rightarrow> string \<Rightarrow> path \<Rightarrow> bool"
where
  "file_in File p = False"
| "file_in (Dir a l es) p = (case p of [] \<Rightarrow> False | n # q \<Rightarrow> entry_in es n q)"
| "entry_in [] n q = False"
| "entry_in ((m, t) # es) n q =
     ((m = n \<and> (if q = [] then \<not> is_dir t else file_in t q)) \<or> entry_in es n q)"

text \<open>\<open>reached t p\<close>: \<open>p\<close> is a file under \<open>t\<close>, the directory \<open>t\<close> and every
  directory on the way can be listed, and no directory on the way below
  \<open>t\<close> is a symbolic link.\<close>

fun reached :: "node \<Rightarrow> path \<Rightarrow> bool"
  and reached_entry :: "(string \<times> node) list \<Rightarrow> string \<Rightarrow> path \<Rightarrow> bool"
where
  "reached File p = False"
| "reached (Dir a l es) p =
     (a = Listable \<and> (case p of [] \<Rightarrow> False | n # q \<Rightarrow> reached_entry es n q))"
| "reached_entry [] n q = False"
| "reached_entry ((m, t) # es) n q =
     ((m = n \<and> (if q = [] then \<not> is_dir t else \<not> islink t \<and> reached t q))
      \<or> reached_entry es n q)"

section \<open>The output format, in the words of the specification\<close>

definition spec_header :: "string \<Rightarrow> string" where
  "spec_header rel =
     ''\<newline>'' @ replicate 80 (CHR ''='') @ ''\<newline>''
     @ ''// FILE: '' @ rel @ ''\<newline>''
     @ replicate 80 (CHR ''='') @ ''\<newline>''
     @ ''\<newline>''"

definition spec_error_line :: "string \<Rightarrow> string" where
  "spec_error_line msg = ''// ERROR reading file: '' @ msg @ ''\<newline>''"

definition spec_body :: "string + string \<Rightarrow> string" where
  "spec_body r = (case r of Inr content \<Rightarrow> content @ ''\<newline>'' | Inl msg \<Rightarrow> spec_error_line msg)"

definition spec_block :: "env \<Rightarrow> path \<Rightarrow> path \<Rightarrow> string" where
  "spec_block e root_path f =
     spec_header (path_str (drop (length root_path) f)) @ spec_body (read_text e f)"

section \<open>Example trees and environments\<close>

abbreviation plain_dir :: "(string \<times> node) list \<Rightarrow> node" where
  "plain_dir es \<equiv> Dir Listable Real es"

text \<open>The scenario of the specification: \<^verbatim>\<open>src/app.ts\<close>, \<^verbatim>\<open>src/util.tsx\<close>,
  \<^verbatim>\<open>node_modules/x/y.ts\<close> and \<^verbatim>\<open>dist/out.ts\<close>.\<close>

definition scenario :: node where
  "scenario =
     plain_dir [(''src'', plain_dir [(''app.ts'', File), (''util.tsx'', File)]),
          (''node_modules'', plain_dir [(''x'', plain_dir [(''y.ts'', File)])]),
          (''dist'', plain_dir [(''out.ts'', File)])]"

text \<open>A tree with a directory that cannot be listed and a link to a
  directory.\<close>

definition guarded :: node where
  "guarded =
     plain_dir [(''src'', plain_dir [(''app.ts'', File)]),
          (''locked'', Dir Unlistable Real [(''b.ts'', File)]),
          (''link'', Dir Listable Symlink [(''a.ts'', File)])]"

text \<open>One directory listed in two different orders.\<close>

definition listing1 :: node where
  "listing1 =
     plain_dir [(''b.ts'', File), (''src'', plain_dir [(''x.ts'', File), (''a.tsx'', File)]),
          (''a.ts'', File)]"

definition listing2 :: node where
  "listing2 =
     plain_dir [(''a.ts'', File), (''src'', plain_dir [(''a.tsx'', File), (''x.ts'', File)]),
          (''b.ts'', File)]"

text \<open>A file \<^verbatim>\<open>a.ts\<close> beside a directory \<^verbatim>\<open>a\<close>.\<close>

definition file_beside_dir :: node where
  "file_beside_dir = plain_dir [(''a.ts'', File), (''a'', plain_dir [(''b.ts'', File)])]"

definition root_r :: path where
  "root_r = [''/'', ''r'']"

text \<open>A root whose own name is in the skip set, and a root whose last name is
  longer than a file name can be.\<close>

definition root_dist :: path where
  "root_dist = [''/'', ''r'', ''dist'']"

definition one_file :: node where
  "one_file = plain_dir [(''a.ts'', File)]"

definition long_root :: path where
  "long_root = [''/'', ''r'', replicate 300 (CHR ''x'')]"

text \<open>A tree without a matching file outside a skipped directory.\<close>

definition no_ts :: node where
  "no_ts =
     plain_dir [(''README.md'', File), (''dist'', plain_dir [(''out.ts'', File)]),
          (''app.js'', File)]"

text \<open>A file whose name has the byte \<^verbatim>\<open>0xFF\<close> on disk: \<^verbatim>\<open>os.walk\<close> gives the
  surrogate U+DCFF for it.\<close>

definition bad_name :: string where
  "bad_name = [CHR 0xED, CHR 0xB3, CHR 0xBF] @ ''.ts''"

definition bad_name_tree :: node where
  "bad_name_tree = plain_dir [(''a.ts'', File), (bad_name, File)]"

text \<open>An environment in which every file is readable, one in which reading
  \<^verbatim>\<open>/r/src/util.tsx\<close> fails, one in which reading \<^verbatim>\<open>/r/a.ts\<close> fails, and one
  in which \<^verbatim>\<open>os.stat\<close> on the root fails because the name is too long.\<close>

definition env_ok :: env where
  "env_ok = \<lparr>open_error = None, read_text = (\<lambda>p. Inr ''export {};''), stat_errno = ENOENT\<rparr>"

definition env_denied :: env where
  "env_denied =
     \<lparr>open_error = None,
      read_text = (\<lambda>p. if p = [''/'', ''r'', ''src'', ''util.tsx'']
                        then Inl ''[Errno 13] Permission denied''
                        else Inr ''export {};''),
      stat_errno = ENOENT\<rparr>"

definition env_denied_a :: env where
  "env_denied_a =
     \<lparr>open_error = None,
      read_text = (\<lambda>p. if p = [''/'', ''r'', ''a.ts'']
                        then Inl ''[Errno 13] Permission denied''
                        else Inr ''export {};''),
      stat_errno = ENOENT\<rparr>"

definition env_toolong :: env where
  "env_toolong =
     \<lparr>open_error = None, read_text = (\<lambda>p. Inr ''export {};''), stat_errno = ENAMETOOLONG\<rparr>"

definition world0 :: world where
  "world0 = \<lparr>stdout = [], out_file = None\<rparr>"

section \<open>Facts about the walk\<close>

lemma collect_Nil: "collect [] = []"
  by (simp add: collect_def)

lemma collect_Cons:
  "collect ((dp, dn, fn) # ts) = map (\<lambda>f. dp @ [f]) (filter is_ts fn) @ collect ts"
  by (simp add: collect_def)

lemma collect_append: "collect (xs @ ys) = collect xs @ collect ys"
  by (simp add: collect_def)

lemma is_ts_simps: "is_ts f = (suffix ''.ts'' f \<or> suffix ''.tsx'' f)"
  by (simp add: is_ts_def endswith_def)

lemma entry_in_names: "entry_in es n q \<Longrightarrow> n \<in> fst ` set es"
  by (induction es) auto

lemma reached_entry_names: "reached_entry es n q \<Longrightarrow> n \<in> fst ` set es"
  by (induction es) auto

lemma reached_entry_Nil: "reached_entry es n [] \<longleftrightarrow> n \<in> set (nondirs_of es)"
  by (induction es) (auto simp: nondirs_of_def)

lemma file_in_nonempty: "file_in t q \<Longrightarrow> q \<noteq> []"
  by (cases t) auto

lemma reached_nonempty: "reached t q \<Longrightarrow> q \<noteq> []"
  by (cases t) auto

lemma reached_is_dir: "reached t q \<Longrightarrow> is_dir t"
  by (cases t) auto

text \<open>What the walk reaches is a file of the tree.\<close>

lemma reached_file_in:
  "reached t q \<Longrightarrow> file_in t q"
  "reached_entry es n q \<Longrightarrow> entry_in es n q"
  by (induction t q and es n q rule: reached_reached_entry.induct)
    (auto split: list.splits if_splits)

text \<open>What the loop over the walk collects, before sorting: the files with a
  matching name that the walk reaches through kept directories only.\<close>

lemma mem_walk:
  "x \<in> set (collect (os_walk keep tp t)) \<longleftrightarrow>
     (\<exists>q. x = tp @ q \<and> reached t q \<and> is_ts (last q) \<and> (\<forall>d\<in>set (butlast q). keep d))"
  "x \<in> set (collect (walk_into keep tp es)) \<longleftrightarrow>
     (\<exists>n q. x = tp @ n # q \<and> q \<noteq> [] \<and> reached_entry es n q \<and> keep n \<and> is_ts (last q)
        \<and> (\<forall>d\<in>set (butlast q). keep d))"
proof (induction keep tp t and keep tp es arbitrary: x and x rule: os_walk_walk_into.induct)
  case (1 keep tp)
  show ?case by (simp add: collect_Nil)
next
  case (2 keep tp a l es)
  show ?case
  proof (cases "a = Unlistable")
    case True
    then show ?thesis by (simp add: collect_Nil)
  next
    case False
    then have a: "a = Listable" by (cases a) simp_all
    show ?thesis (is "?L = ?R")
    proof
      assume ?L
      then consider f where "f \<in> set (nondirs_of es)" "is_ts f" "x = tp @ [f]"
        | "x \<in> set (collect (walk_into keep tp es))"
        using False by (auto simp: collect_Cons)
      then show ?R
      proof cases
        case 1
        then have "reached (Dir a l es) [f]" using a by (simp add: reached_entry_Nil)
        with 1 show ?thesis by (intro exI[of _ "[f]"]) simp
      next
        case 2
        then obtain n q where nq: "x = tp @ n # q" "q \<noteq> []" "reached_entry es n q" "keep n"
          "is_ts (last q)" "\<forall>d\<in>set (butlast q). keep d"
          using "2.IH"[OF False] by blast
        then show ?thesis using a by (intro exI[of _ "n # q"]) simp
      qed
    next
      assume ?R
      then obtain q where q: "x = tp @ q" "reached (Dir a l es) q" "is_ts (last q)"
        "\<forall>d\<in>set (butlast q). keep d" by blast
      then obtain n q' where nq: "q = n # q'" "reached_entry es n q'"
        by (cases q) auto
      show ?L
      proof (cases "q' = []")
        case True
        with nq q False show ?thesis by (simp add: collect_Cons reached_entry_Nil)
      next
        case False
        with nq q have "x \<in> set (collect (walk_into keep tp es))"
          using "2.IH"[OF \<open>a \<noteq> Unlistable\<close>] by auto
        then show ?thesis using \<open>a \<noteq> Unlistable\<close> by (simp add: collect_Cons)
      qed
    qed
  qed
next
  case (3 keep tp)
  show ?case by (simp add: collect_Nil)
next
  case (4 keep tp d t es)
  let ?A = "if is_dir t \<and> keep d \<and> \<not> islink t then os_walk keep (tp @ [d]) t else []"
  have A: "x \<in> set (collect ?A) \<longleftrightarrow>
      (\<exists>q. x = tp @ d # q \<and> q \<noteq> [] \<and> \<not> islink t \<and> reached t q \<and> keep d \<and> is_ts (last q)
         \<and> (\<forall>d\<in>set (butlast q). keep d))"
  proof (cases "is_dir t \<and> keep d \<and> \<not> islink t")
    case True
    then show ?thesis
      using "4.IH"(1)[OF True, of x] by (auto dest: reached_nonempty)
  next
    case False
    then show ?thesis
      by (auto simp: collect_Nil dest: reached_is_dir)
  qed
  have B: "x \<in> set (collect (walk_into keep tp ((d, t) # es))) \<longleftrightarrow>
      x \<in> set (collect ?A) \<or> x \<in> set (collect (walk_into keep tp es))"
    by (simp add: collect_append)
  show ?case
    unfolding B A "4.IH"(2) by auto
qed

lemma distinct_nondirs: "distinct (map fst es) \<Longrightarrow> distinct (nondirs_of es)"
  by (simp add: nondirs_of_def distinct_map_filter)

lemma distinct_walk:
  "wf_tree t \<Longrightarrow> distinct (collect (os_walk keep tp t))"
  "distinct (map fst es) \<Longrightarrow> wf_entries es \<Longrightarrow> distinct (collect (walk_into keep tp es))"
proof (induction keep tp t and keep tp es rule: os_walk_walk_into.induct)
  case (1 keep tp)
  show ?case by (simp add: collect_Nil)
next
  case (2 keep tp a l es)
  show ?case
  proof (cases "a = Unlistable")
    case True
    then show ?thesis by (simp add: collect_Nil)
  next
    case False
    from "2.prems" have d: "distinct (map fst es)" and w: "wf_entries es" by simp_all
    have "distinct (map (\<lambda>f. tp @ [f]) (filter is_ts (nondirs_of es)))"
      using distinct_nondirs[OF d] by (simp add: distinct_map inj_on_def)
    moreover have "distinct (collect (walk_into keep tp es))"
      using "2.IH"[OF False d w] .
    moreover have "set (map (\<lambda>f. tp @ [f]) (filter is_ts (nondirs_of es)))
        \<inter> set (collect (walk_into keep tp es)) = {}"
      by (auto simp: mem_walk(2))
    ultimately show ?thesis using False by (simp add: collect_Cons)
  qed
next
  case (3 keep tp)
  show ?case by (simp add: collect_Nil)
next
  case (4 keep tp d t es)
  let ?A = "if is_dir t \<and> keep d \<and> \<not> islink t then os_walk keep (tp @ [d]) t else []"
  from "4.prems" have dn: "d \<notin> fst ` set es" and de: "distinct (map fst es)"
    and wt: "wf_tree t" and we: "wf_entries es" by simp_all
  have "distinct (collect ?A)"
    using "4.IH"(1)[OF _ wt] by (simp add: collect_Nil)
  moreover have "distinct (collect (walk_into keep tp es))"
    using "4.IH"(2)[OF de we] .
  moreover have "set (collect ?A) \<inter> set (collect (walk_into keep tp es)) = {}"
    using dn by (auto simp: mem_walk collect_Nil dest: reached_entry_names split: if_splits)
  ultimately show ?case by (simp add: collect_append)
qed

lemma set_find_ts_files:
  "set (find_ts_files root_path t) =
     {root_path @ q | q. reached t q \<and> is_ts (last q) \<and> set (butlast q) \<inter> SKIP_DIRS = {}}"
  unfolding find_ts_files_def by (auto simp: mem_walk(1))

lemma distinct_find_ts_files: "wf_tree t \<Longrightarrow> distinct (find_ts_files root_path t)"
  unfolding find_ts_files_def by (simp add: distinct_walk(1))

lemma sorted_find_ts_files: "sorted (find_ts_files root_path t)"
  by (simp add: find_ts_files_def)

lemma wf_file_in_names:
  "wf_tree t \<Longrightarrow> file_in t q \<Longrightarrow> n \<in> set q \<Longrightarrow> valid_name n"
  "wf_entries es \<Longrightarrow> entry_in es m q \<Longrightarrow> n \<in> set (m # q) \<Longrightarrow> valid_name n"
proof (induction t and es arbitrary: q and m q rule: wf_tree_wf_entries.induct)
  case 1
  then show ?case by simp
next
  case (2 a l es)
  then show ?case by (cases q) auto
next
  case 3
  then show ?case by simp
next
  case (4 n' t es)
  then show ?case by (auto split: if_splits)
qed

lemma discovered_form:
  assumes "wf_tree t" "f \<in> set (find_ts_files root_path t)"
  shows "\<exists>q. f = root_path @ q \<and> q \<noteq> [] \<and> file_in t q \<and> (\<forall>n\<in>set q. valid_name n)"
proof -
  from assms(2) obtain q where q: "f = root_path @ q" "reached t q"
    by (auto simp: set_find_ts_files)
  then have "file_in t q" by (simp add: reached_file_in(1))
  with q assms(1) show ?thesis
    by (auto dest: file_in_nonempty wf_file_in_names(1))
qed

section \<open>Facts about paths\<close>

lemma join_Cons: "join (n # q) = n @ (if q = [] then [] else CHR ''/'' # join q)"
  by (cases q) simp_all

lemma valid_name_not_anchor: "valid_name n \<Longrightarrow> \<not> is_anchor n"
  by (auto simp: valid_name_def is_anchor_def)

lemma not_absolute_valid: "q \<noteq> [] \<Longrightarrow> valid_name (hd q) \<Longrightarrow> \<not> is_absolute q"
  by (cases q) (auto simp: is_absolute_def valid_name_not_anchor)

lemma relative_to_append:
  "q \<noteq> [] \<Longrightarrow> valid_name (hd q) \<Longrightarrow> relative_to (root_path @ q) root_path = Inr q"
  by (simp add: relative_to_def not_absolute_valid)

lemma relative_to_discovered:
  assumes "wf_tree t" "f \<in> set (find_ts_files root_path t)"
  shows "relative_to f root_path = Inr (drop (length root_path) f)"
proof -
  from discovered_form[OF assms] obtain q where
    q: "f = root_path @ q" "q \<noteq> []" "\<forall>n\<in>set q. valid_name n" by blast
  then have "valid_name (hd q)" by simp
  with q show ?thesis by (simp add: relative_to_append)
qed

lemma path_str_valid:
  "q \<noteq> [] \<Longrightarrow> valid_name (hd q) \<Longrightarrow> path_str q = join q"
  by (cases q) (auto simp: path_str_def valid_name_not_anchor)

lemma join_starts:
  "q \<noteq> [] \<Longrightarrow> valid_name (hd q) \<Longrightarrow> join q \<noteq> [] \<and> hd (join q) \<noteq> CHR ''/''"
  by (cases q; cases "hd q") (auto simp: join_Cons valid_name_def)

lemma takeWhile_join:
  "valid_name n \<Longrightarrow> takeWhile (\<lambda>c. c \<noteq> CHR ''/'') (join (n # q)) = n"
proof -
  assume "valid_name n"
  then have n: "\<forall>c\<in>set n. c \<noteq> CHR ''/''" by (auto simp: valid_name_def)
  then have "takeWhile (\<lambda>c. c \<noteq> CHR ''/'') (n @ r) = n @ takeWhile (\<lambda>c. c \<noteq> CHR ''/'') r" for r
    by (intro takeWhile_append2) simp
  then show ?thesis by (simp add: join_Cons)
qed

text \<open>Joining valid names with the separator loses nothing.\<close>

lemma join_inj:
  "xs \<noteq> [] \<Longrightarrow> ys \<noteq> [] \<Longrightarrow> \<forall>n\<in>set xs. valid_name n \<Longrightarrow> \<forall>n\<in>set ys. valid_name n \<Longrightarrow>
     join xs = join ys \<Longrightarrow> xs = ys"
proof (induction xs arbitrary: ys)
  case Nil
  then show ?case by simp
next
  case (Cons x xs)
  from Cons.prems(2) obtain y ys' where ys: "ys = y # ys'" by (cases ys) auto
  from Cons.prems ys have vx: "valid_name x" and vy: "valid_name y" by simp_all
  from Cons.prems(5) ys have eq: "join (x # xs) = join (y # ys')" by simp
  have "x = takeWhile (\<lambda>c. c \<noteq> CHR ''/'') (join (x # xs))"
    using takeWhile_join[OF vx] by simp
  also have "\<dots> = y" using eq takeWhile_join[OF vy] by simp
  finally have xy: "x = y" .
  with eq have rest: "(if xs = [] then [] else CHR ''/'' # join xs)
      = (if ys' = [] then [] else CHR ''/'' # join ys')"
    by (simp add: join_Cons)
  show ?case
  proof (cases "xs = []")
    case True
    with rest have "ys' = []" by (auto split: if_splits)
    with True xy ys show ?thesis by simp
  next
    case False
    with rest have ne: "ys' \<noteq> []" and j: "join xs = join ys'" by (auto split: if_splits)
    from Cons.IH[OF False ne _ _ j] Cons.prems ys have "xs = ys'" by simp
    with xy ys show ?thesis by simp
  qed
qed

lemma header_path:
  assumes "wf_tree t" "f \<in> set (find_ts_files root_path t)"
  shows "path_str (drop (length root_path) f) \<noteq> []
    \<and> hd (path_str (drop (length root_path) f)) \<noteq> CHR ''/''"
proof -
  from discovered_form[OF assms] obtain q where
    q: "f = root_path @ q" "q \<noteq> []" "\<forall>n\<in>set q. valid_name n" by blast
  then have v: "valid_name (hd q)" by simp
  from q(1) have d: "drop (length root_path) f = q" by simp
  show ?thesis
    unfolding d using path_str_valid[OF q(2) v] join_starts[OF q(2) v] by simp
qed

lemma distinct_headers:
  assumes "wf_tree t"
  shows "distinct (map (\<lambda>f. path_str (drop (length root_path) f)) (find_ts_files root_path t))"
proof -
  have "inj_on (\<lambda>f. path_str (drop (length root_path) f)) (set (find_ts_files root_path t))"
  proof (rule inj_onI)
    fix f g
    assume f: "f \<in> set (find_ts_files root_path t)" and g: "g \<in> set (find_ts_files root_path t)"
      and eq: "path_str (drop (length root_path) f) = path_str (drop (length root_path) g)"
    from discovered_form[OF assms f] obtain q where
      q: "f = root_path @ q" "q \<noteq> []" "\<forall>n\<in>set q. valid_name n" by blast
    from discovered_form[OF assms g] obtain r where
      r: "g = root_path @ r" "r \<noteq> []" "\<forall>n\<in>set r. valid_name n" by blast
    from q r have "valid_name (hd q)" "valid_name (hd r)" by simp_all
    with eq q r have "join q = join r" by (simp add: path_str_valid)
    from join_inj[OF q(2) r(2) q(3) r(3) this] q r show "f = g" by simp
  qed
  with distinct_find_ts_files[OF assms] show ?thesis by (simp add: distinct_map)
qed

section \<open>Facts about the combine loop\<close>

text \<open>One pass of the loop body appends the header and the body of the
  specification's format, or stops at the header line.\<close>

lemma write_file_block:
  "relative_to f root_path = Inr rel \<Longrightarrow> utf8 (path_str rel) \<Longrightarrow>
     write_file e root_path f out =
       Inr (out @ spec_header (path_str rel) @ spec_body (read_text e f))"
  by (simp add: write_file_def spec_header_def spec_body_def spec_error_line_def separator_def
      Let_def split: sum.splits)

lemma write_file_unencodable:
  "relative_to f root_path = Inr rel \<Longrightarrow> \<not> utf8 (path_str rel) \<Longrightarrow>
     write_file e root_path f out =
       Inl (UnicodeEncodeError (path_str rel), out @ ''\<newline>'' @ separator @ ''\<newline>'')"
  by (simp add: write_file_def Let_def)


lemma write_all_blocks:
  "\<forall>f\<in>set ts. relative_to f root_path = Inr (drop (length root_path) f)
       \<and> utf8 (path_str (drop (length root_path) f)) \<Longrightarrow>
     write_all e root_path ts out = (None, out @ concat (map (spec_block e root_path) ts))"
  by (induction ts arbitrary: out) (simp_all add: write_file_block spec_block_def)

lemma write_all_no_ValueError:
  "\<forall>f\<in>set ts. relative_to f root_path = Inr (drop (length root_path) f) \<Longrightarrow>
     fst (write_all e root_path ts out) \<noteq> Some (ValueError a b)"
proof (induction ts arbitrary: out)
  case Nil
  then show ?case by simp
next
  case (Cons f ts)
  then have r: "relative_to f root_path = Inr (drop (length root_path) f)" by simp
  show ?case
  proof (cases "utf8 (path_str (drop (length root_path) f))")
    case True
    with Cons r show ?thesis by (simp add: write_file_block)
  next
    case False
    with r show ?thesis by (simp add: write_file_unencodable)
  qed
qed

lemma combine_files_discovered:
  assumes "wf_tree t" "open_error e = None"
    and "\<forall>f\<in>set (find_ts_files root_path t). utf8 (path_str (drop (length root_path) f))"
  shows "combine_files e (find_ts_files root_path t) root_path w =
    (None, w\<lparr>out_file := Some (concat (map (spec_block e root_path) (find_ts_files root_path t)))\<rparr>)"
proof -
  have "\<forall>f\<in>set (find_ts_files root_path t).
      relative_to f root_path = Inr (drop (length root_path) f)
      \<and> utf8 (path_str (drop (length root_path) f))"
    using relative_to_discovered[OF assms(1)] assms(3) by blast
  from write_all_blocks[OF this, of e "[]"] assms(2) show ?thesis
    by (simp add: combine_files_def)
qed

lemma combine_files_no_ValueError:
  assumes "wf_tree t"
  shows "fst (combine_files e (find_ts_files root_path t) root_path w) \<noteq> Some (ValueError a b)"
proof -
  have "\<forall>f\<in>set (find_ts_files root_path t).
      relative_to f root_path = Inr (drop (length root_path) f)"
    using relative_to_discovered[OF assms] by blast
  from write_all_no_ValueError[OF this, of e "[]" a b] show ?thesis
    by (auto simp: combine_files_def split: option.splits prod.splits)
qed

section \<open>Discovery: the claims\<close>

text \<open>
  C1 (as amended). For every root and every tree, \<^verbatim>\<open>find_ts_files\<close> returns the
  sorted list whose elements are exactly the root followed by the relative
  path of a file under the root, at any depth, whose name ends with \<^verbatim>\<open>.ts\<close>
  or \<^verbatim>\<open>.tsx\<close> and which the walk reaches: the root and every directory on the
  way can be listed, and no directory on the way below the root is a
  symbolic link or named in the skip set. In a well-formed tree no path
  occurs twice.
\<close>

theorem find_ts_files_exact:
  "sorted (find_ts_files root_path t)
   \<and> set (find_ts_files root_path t) =
       {root_path @ q | q. reached t q \<and> is_ts (last q) \<and> set (butlast q) \<inter> SKIP_DIRS = {}}
   \<and> (\<forall>q. reached t q \<longrightarrow> file_in t q)
   \<and> (wf_tree t \<longrightarrow> distinct (find_ts_files root_path t))"
  using set_find_ts_files[of root_path t] distinct_find_ts_files[of t root_path]
  by (simp add: sorted_find_ts_files reached_file_in(1))

text \<open>The theorem at a tree with a directory that cannot be listed and a link
  to a directory: their files are under the root and are not reached.\<close>

theorem find_ts_files_exact_witness:
  "wf_tree guarded
   \<and> file_in guarded [''locked'', ''b.ts''] \<and> \<not> reached guarded [''locked'', ''b.ts'']
   \<and> file_in guarded [''link'', ''a.ts''] \<and> \<not> reached guarded [''link'', ''a.ts'']
   \<and> find_ts_files root_r guarded = [[''/'', ''r'', ''src'', ''app.ts'']]
   \<and> sorted (find_ts_files root_r guarded)
   \<and> distinct (find_ts_files root_r guarded)
   \<and> set (find_ts_files root_r guarded) =
       {root_r @ q | q. reached guarded q \<and> is_ts (last q) \<and> set (butlast q) \<inter> SKIP_DIRS = {}}"
proof -
  have 1: "wf_tree guarded" by (simp add: guarded_def valid_name_def)
  have 2: "file_in guarded [''locked'', ''b.ts''] \<and> \<not> reached guarded [''locked'', ''b.ts'']
      \<and> file_in guarded [''link'', ''a.ts''] \<and> \<not> reached guarded [''link'', ''a.ts'']"
    by (simp add: guarded_def)
  have 3: "find_ts_files root_r guarded = [[''/'', ''r'', ''src'', ''app.ts'']]"
    by (simp add: find_ts_files_def collect_def SKIP_DIRS_def dirs_of_def nondirs_of_def
        is_ts_simps suffix_to_prefix guarded_def root_r_def)
  from find_ts_files_exact[of root_r guarded] 1 2 3 show ?thesis by metis
qed

text \<open>
  C1 as stated fails: in the scenario, \<^verbatim>\<open>dist/out.ts\<close> is a file under the
  root whose name ends with \<^verbatim>\<open>.ts\<close>, and it is not in the list returned.
\<close>

theorem find_ts_files_all_files_counterexample:
  "file_in scenario [''dist'', ''out.ts'']
   \<and> is_ts ''out.ts''
   \<and> find_ts_files root_r scenario =
       [[''/'', ''r'', ''src'', ''app.ts''], [''/'', ''r'', ''src'', ''util.tsx'']]
   \<and> [''/'', ''r'', ''dist'', ''out.ts''] \<notin> set (find_ts_files root_r scenario)"
  by (simp add: find_ts_files_def collect_def SKIP_DIRS_def dirs_of_def nondirs_of_def
      is_ts_simps suffix_to_prefix scenario_def root_r_def less_eq_char_def less_char_def)

text \<open>
  C2 (as amended). For every tree, a file under the root whose path below the
  root passes through a directory named in the skip set, at any depth, is not
  in the list returned, whatever its own name. The names in the root path
  itself are not tested.
\<close>

theorem skip_dirs_not_discovered:
  "file_in t q \<Longrightarrow> d \<in> set (butlast q) \<Longrightarrow> d \<in> SKIP_DIRS \<Longrightarrow>
     root_path @ q \<notin> set (find_ts_files root_path t)"
  by (auto simp: set_find_ts_files)

theorem skip_dirs_not_discovered_witness:
  "file_in scenario [''node_modules'', ''x'', ''y.ts'']
   \<and> ''node_modules'' \<in> set (butlast [''node_modules'', ''x'', ''y.ts''])
   \<and> ''node_modules'' \<in> SKIP_DIRS
   \<and> root_r @ [''node_modules'', ''x'', ''y.ts''] \<notin> set (find_ts_files root_r scenario)"
proof -
  have 1: "file_in scenario [''node_modules'', ''x'', ''y.ts'']"
    by (simp add: scenario_def)
  have 2: "''node_modules'' \<in> set (butlast [''node_modules'', ''x'', ''y.ts''])"
    by simp
  have 3: "''node_modules'' \<in> SKIP_DIRS"
    by (simp add: SKIP_DIRS_def)
  from skip_dirs_not_discovered[OF 1 2 3, of root_r] 1 2 3 show ?thesis by blast
qed

text \<open>
  C2 as stated fails: with the root \<^verbatim>\<open>/r/dist\<close>, the file \<^verbatim>\<open>/r/dist/a.ts\<close> is
  returned, and its path passes through the directory \<^verbatim>\<open>dist\<close>.
\<close>

theorem skip_named_root_counterexample:
  "find_ts_files root_dist one_file = [[''/'', ''r'', ''dist'', ''a.ts'']]
   \<and> ''dist'' \<in> set (butlast [''/'', ''r'', ''dist'', ''a.ts''])
   \<and> ''dist'' \<in> SKIP_DIRS"
  by (simp add: find_ts_files_def collect_def SKIP_DIRS_def dirs_of_def nondirs_of_def
      is_ts_simps suffix_to_prefix one_file_def root_dist_def)

text \<open>
  C5 (as amended). The list returned is sorted by the tuples of path parts,
  compared lexicographically, each part as a string.
\<close>

theorem find_ts_files_sorted_by_parts:
  "sorted (find_ts_files root_path t)"
  by (simp add: find_ts_files_def)

text \<open>
  C5 as stated fails: with a file \<^verbatim>\<open>a.ts\<close> beside a directory \<^verbatim>\<open>a\<close>, the part
  \<^verbatim>\<open>a\<close> is smaller than the part \<^verbatim>\<open>a.ts\<close>, while the string \<^verbatim>\<open>/r/a.ts\<close> is
  smaller than the string \<^verbatim>\<open>/r/a/b.ts\<close>. The list returned is not sorted by
  path string.
\<close>

theorem sorted_by_path_string_counterexample:
  "find_ts_files root_r file_beside_dir =
       [[''/'', ''r'', ''a'', ''b.ts''], [''/'', ''r'', ''a.ts'']]
   \<and> map path_str (find_ts_files root_r file_beside_dir) = [''/r/a/b.ts'', ''/r/a.ts'']
   \<and> \<not> sorted (map path_str (find_ts_files root_r file_beside_dir))"
  by (simp add: find_ts_files_def collect_def SKIP_DIRS_def dirs_of_def nondirs_of_def
      is_ts_simps suffix_to_prefix path_str_def is_anchor_def file_beside_dir_def root_r_def
      less_eq_char_def less_char_def)

text \<open>
  C9. The list returned depends only on which files the walk reaches, not on
  the order in which the directories list their entries: two well-formed
  trees in which the same files are reached give the same list, in the same
  order.
\<close>

theorem find_ts_files_deterministic:
  assumes "wf_tree t" and "wf_tree t'" and "\<forall>q. reached t q = reached t' q"
  shows "find_ts_files root_path t = find_ts_files root_path t'"
proof -
  have "set (find_ts_files root_path t) = set (find_ts_files root_path t')"
    using assms(3) by (simp add: set_find_ts_files)
  then show ?thesis
    using distinct_find_ts_files[OF assms(1)] distinct_find_ts_files[OF assms(2)]
      sorted_find_ts_files[of root_path t] sorted_find_ts_files[of root_path t']
    by (intro sorted_distinct_set_unique)
qed

theorem find_ts_files_deterministic_witness:
  "wf_tree listing1 \<and> wf_tree listing2 \<and> (\<forall>q. reached listing1 q = reached listing2 q)
   \<and> listing1 \<noteq> listing2
   \<and> find_ts_files root_r listing1 = find_ts_files root_r listing2"
proof -
  have 1: "wf_tree listing1" by (simp add: listing1_def valid_name_def)
  have 2: "wf_tree listing2" by (simp add: listing2_def valid_name_def)
  have 3: "\<forall>q. reached listing1 q = reached listing2 q"
    unfolding listing1_def listing2_def by (auto split: list.splits)
  have 4: "listing1 \<noteq> listing2" by (simp add: listing1_def listing2_def)
  from find_ts_files_deterministic[OF 1 2 3, of root_r] 1 2 3 4 show ?thesis by blast
qed

section \<open>Combiner: the claims\<close>

text \<open>
  C8. In a well-formed tree, for every file that Discovery returns, the
  Combiner's computation of the path relative to the root does not raise:
  \<^verbatim>\<open>relative_to\<close> gives what follows the root's parts, the loop body for the
  file either writes the block whose header line names that relative path or
  stops at the header line because the path cannot be encoded, and the whole
  combine pass never ends with the \<^verbatim>\<open>ValueError\<close>. The relative path in the
  header is not empty and does not start with the separator.
\<close>

theorem relative_path_of_discovered:
  assumes "wf_tree t" and "f \<in> set (find_ts_files root_path t)"
  shows "relative_to f root_path = Inr (drop (length root_path) f)
    \<and> write_file e root_path f out =
        (if utf8 (path_str (drop (length root_path) f))
         then Inr (out @ spec_header (path_str (drop (length root_path) f))
                       @ spec_body (read_text e f))
         else Inl (UnicodeEncodeError (path_str (drop (length root_path) f)),
                   out @ ''\<newline>'' @ separator @ ''\<newline>''))
    \<and> (\<forall>a b. fst (combine_files e (find_ts_files root_path t) root_path w)
               \<noteq> Some (ValueError a b))
    \<and> path_str (drop (length root_path) f) \<noteq> []
    \<and> hd (path_str (drop (length root_path) f)) \<noteq> CHR ''/''"
proof -
  note r = relative_to_discovered[OF assms]
  have "write_file e root_path f out =
        (if utf8 (path_str (drop (length root_path) f))
         then Inr (out @ spec_header (path_str (drop (length root_path) f))
                       @ spec_body (read_text e f))
         else Inl (UnicodeEncodeError (path_str (drop (length root_path) f)),
                   out @ ''\<newline>'' @ separator @ ''\<newline>''))"
    using write_file_block[OF r] write_file_unencodable[OF r] by simp
  with r header_path[OF assms] combine_files_no_ValueError[OF assms(1)]
  show ?thesis by blast
qed

theorem relative_path_of_discovered_witness:
  "wf_tree listing1
   \<and> [''/'', ''r'', ''src'', ''a.tsx''] \<in> set (find_ts_files root_r listing1)
   \<and> relative_to [''/'', ''r'', ''src'', ''a.tsx''] root_r = Inr [''src'', ''a.tsx'']
   \<and> path_str [''src'', ''a.tsx''] = ''src/a.tsx''
   \<and> write_file env_ok root_r [''/'', ''r'', ''src'', ''a.tsx''] ''previous'' =
        Inr (''previous'' @ spec_header ''src/a.tsx'' @ ''export {};'' @ ''\<newline>'')
   \<and> (\<forall>a b. fst (combine_files env_ok (find_ts_files root_r listing1) root_r world0)
               \<noteq> Some (ValueError a b))
   \<and> hd (path_str [''src'', ''a.tsx'']) \<noteq> CHR ''/''"
proof -
  have 1: "wf_tree listing1" by (simp add: listing1_def valid_name_def)
  have 2: "[''/'', ''r'', ''src'', ''a.tsx''] \<in> set (find_ts_files root_r listing1)"
    by (simp add: set_find_ts_files listing1_def is_ts_simps suffix_to_prefix SKIP_DIRS_def
        root_r_def)
  have 3: "drop (length root_r) [''/'', ''r'', ''src'', ''a.tsx''] = [''src'', ''a.tsx'']"
    by (simp add: root_r_def)
  have 4: "path_str [''src'', ''a.tsx''] = ''src/a.tsx''"
    by (simp add: path_str_def is_anchor_def)
  have 5: "utf8 ''src/a.tsx''" by (simp add: between_def)
  have 6: "spec_body (read_text env_ok [''/'', ''r'', ''src'', ''a.tsx'']) = ''export {};'' @ ''\<newline>''"
    by (simp add: spec_body_def env_ok_def)
  from relative_path_of_discovered[OF 1 2, of env_ok "''previous''" world0] 1 2
  show ?thesis unfolding 3 4 6 using 5 by simp
qed

text \<open>
  C3 (as amended). For the list that Discovery returns on a well-formed tree,
  when the output file can be opened and the relative path of every
  discovered file is valid UTF-8, the Combiner writes exactly one block per
  discovered file, in the sorted order of the list, the blocks directly one
  after the other, and the relative paths in the headers are pairwise
  different. A block is a newline, a line of 80 \<^verbatim>\<open>=\<close>, the line
  \<^verbatim>\<open>// FILE: <relative path>\<close>, a second line of 80 \<^verbatim>\<open>=\<close>, a blank line, and
  then the file content and a newline or, when reading the file fails, the
  inline error line.
\<close>

theorem combine_files_blocks:
  assumes "wf_tree t" and "open_error e = None"
    and "\<forall>f\<in>set (find_ts_files root_path t). utf8 (path_str (drop (length root_path) f))"
  shows "combine_files e (find_ts_files root_path t) root_path w =
           (None, w\<lparr>out_file :=
              Some (concat (map (spec_block e root_path) (find_ts_files root_path t)))\<rparr>)
    \<and> sorted (find_ts_files root_path t)
    \<and> distinct (map (\<lambda>f. path_str (drop (length root_path) f)) (find_ts_files root_path t))"
  using combine_files_discovered[OF assms] distinct_headers[OF assms(1)]
  by (simp add: sorted_find_ts_files)

theorem combine_files_blocks_witness:
  "wf_tree scenario \<and> open_error env_ok = None
   \<and> list_all (\<lambda>f. utf8 (path_str (drop (length root_r) f))) (find_ts_files root_r scenario)
   \<and> combine_files env_ok (find_ts_files root_r scenario) root_r world0 =
        (None, world0\<lparr>out_file :=
           Some (concat (map (spec_block env_ok root_r) (find_ts_files root_r scenario)))\<rparr>)
   \<and> sorted (find_ts_files root_r scenario)
   \<and> distinct (map (\<lambda>f. path_str (drop (length root_r) f)) (find_ts_files root_r scenario))"
proof -
  have 1: "wf_tree scenario" by (simp add: scenario_def valid_name_def)
  have 2: "open_error env_ok = None" by (simp add: env_ok_def)
  have 3: "list_all (\<lambda>f. utf8 (path_str (drop (length root_r) f))) (find_ts_files root_r scenario)"
    by (simp add: find_ts_files_def collect_def SKIP_DIRS_def dirs_of_def nondirs_of_def
        is_ts_simps suffix_to_prefix scenario_def root_r_def less_eq_char_def less_char_def
        path_str_def is_anchor_def between_def)
  then have 4: "\<forall>f\<in>set (find_ts_files root_r scenario). utf8 (path_str (drop (length root_r) f))"
    by (simp add: list_all_iff)
  from combine_files_blocks[OF 1 2 4, of world0] 1 2 3 show ?thesis by blast
qed

text \<open>
  C3 as stated fails: in the scenario, when reading \<^verbatim>\<open>src/util.tsx\<close> fails, its
  block ends with the error line and not with the content of the file.
\<close>

theorem combine_files_content_counterexample:
  "find_ts_files root_r scenario =
      [[''/'', ''r'', ''src'', ''app.ts''], [''/'', ''r'', ''src'', ''util.tsx'']]
   \<and> read_text env_denied [''/'', ''r'', ''src'', ''util.tsx''] = Inl ''[Errno 13] Permission denied''
   \<and> combine_files env_denied (find_ts_files root_r scenario) root_r world0 =
      (None, world0\<lparr>out_file := Some (
          spec_header ''src/app.ts'' @ ''export {};'' @ ''\<newline>''
        @ spec_header ''src/util.tsx'' @ ''// ERROR reading file: [Errno 13] Permission denied'' @ ''\<newline>'')\<rparr>)"
  by (simp add: find_ts_files_def collect_def SKIP_DIRS_def dirs_of_def nondirs_of_def
      is_ts_simps suffix_to_prefix scenario_def root_r_def less_eq_char_def less_char_def
      env_denied_def combine_files_def write_file_def relative_to_def path_str_def is_anchor_def
      between_def spec_header_def separator_def world0_def)

text \<open>
  C4 (as amended). When the output file can be opened and the relative path
  of every discovered file is valid UTF-8, a discovered file whose read fails
  does not end the run: the Combiner raises nothing, every discovered file
  has its block in the output, in order, and the block of the file that
  could not be read is its header followed by the error line with the
  description of the failure.
\<close>

theorem read_failure_inline:
  assumes "wf_tree t" and "open_error e = None"
    and "\<forall>f\<in>set (find_ts_files root_path t). utf8 (path_str (drop (length root_path) f))"
    and "f \<in> set (find_ts_files root_path t)" and "read_text e f = Inl msg"
  shows "combine_files e (find_ts_files root_path t) root_path w =
           (None, w\<lparr>out_file :=
              Some (concat (map (spec_block e root_path) (find_ts_files root_path t)))\<rparr>)
    \<and> spec_block e root_path f =
        spec_header (path_str (drop (length root_path) f))
        @ ''// ERROR reading file: '' @ msg @ ''\<newline>''"
  using combine_files_discovered[OF assms(1,2,3)] assms(5)
  by (simp add: spec_block_def spec_body_def spec_error_line_def)

theorem read_failure_inline_witness:
  "wf_tree scenario \<and> open_error env_denied = None
   \<and> list_all (\<lambda>f. utf8 (path_str (drop (length root_r) f))) (find_ts_files root_r scenario)
   \<and> [''/'', ''r'', ''src'', ''util.tsx''] \<in> set (find_ts_files root_r scenario)
   \<and> read_text env_denied [''/'', ''r'', ''src'', ''util.tsx''] = Inl ''[Errno 13] Permission denied''
   \<and> combine_files env_denied (find_ts_files root_r scenario) root_r world0 =
        (None, world0\<lparr>out_file :=
           Some (concat (map (spec_block env_denied root_r) (find_ts_files root_r scenario)))\<rparr>)
   \<and> spec_block env_denied root_r [''/'', ''r'', ''src'', ''util.tsx''] =
        spec_header ''src/util.tsx'' @ ''// ERROR reading file: [Errno 13] Permission denied'' @ ''\<newline>''"
proof -
  have 1: "wf_tree scenario" by (simp add: scenario_def valid_name_def)
  have 2: "open_error env_denied = None" by (simp add: env_denied_def)
  have 3: "list_all (\<lambda>f. utf8 (path_str (drop (length root_r) f))) (find_ts_files root_r scenario)"
    by (simp add: find_ts_files_def collect_def SKIP_DIRS_def dirs_of_def nondirs_of_def
        is_ts_simps suffix_to_prefix scenario_def root_r_def less_eq_char_def less_char_def
        path_str_def is_anchor_def between_def)
  then have 4: "\<forall>f\<in>set (find_ts_files root_r scenario). utf8 (path_str (drop (length root_r) f))"
    by (simp add: list_all_iff)
  have 5: "[''/'', ''r'', ''src'', ''util.tsx''] \<in> set (find_ts_files root_r scenario)"
    by (simp add: set_find_ts_files scenario_def is_ts_simps suffix_to_prefix SKIP_DIRS_def
        root_r_def)
  have 6: "read_text env_denied [''/'', ''r'', ''src'', ''util.tsx''] = Inl ''[Errno 13] Permission denied''"
    by (simp add: env_denied_def)
  have 7: "path_str (drop (length root_r) [''/'', ''r'', ''src'', ''util.tsx'']) = ''src/util.tsx''"
    by (simp add: root_r_def path_str_def is_anchor_def)
  from read_failure_inline[OF 1 2 4 5 6, of world0] 1 2 3 5 6 show ?thesis
    unfolding 7 by simp
qed

text \<open>
  C4 as stated fails: beside \<^verbatim>\<open>a.ts\<close>, whose read fails, the tree has a file
  whose name is not UTF-8. The error line for \<^verbatim>\<open>a.ts\<close> is written, then the
  header line of the second file raises \<^verbatim>\<open>UnicodeEncodeError\<close> outside the
  \<^verbatim>\<open>try\<close>: the run is aborted and the block of the second file is missing.
\<close>

theorem read_failure_abort_counterexample:
  "find_ts_files root_r bad_name_tree = [[''/'', ''r'', ''a.ts''], [''/'', ''r'', bad_name]]
   \<and> read_text env_denied_a [''/'', ''r'', ''a.ts''] = Inl ''[Errno 13] Permission denied''
   \<and> combine_files env_denied_a (find_ts_files root_r bad_name_tree) root_r world0 =
      (Some (UnicodeEncodeError bad_name),
       world0\<lparr>out_file := Some (
          spec_header ''a.ts'' @ spec_error_line ''[Errno 13] Permission denied''
        @ ''\<newline>'' @ separator @ ''\<newline>'')\<rparr>)"
  by (simp add: find_ts_files_def collect_def SKIP_DIRS_def dirs_of_def nondirs_of_def
      is_ts_simps suffix_to_prefix bad_name_tree_def bad_name_def root_r_def
      less_eq_char_def less_char_def env_denied_a_def combine_files_def write_file_def
      relative_to_def path_str_def is_anchor_def between_def spec_header_def
      spec_error_line_def separator_def world0_def)



section \<open>Entry point: the claims\<close>

text \<open>
  C6. When the root exists and Discovery returns no file, \<^verbatim>\<open>main\<close> prints the
  search line and \<^verbatim>\<open>No TypeScript files found\<close>, returns 0, so that the
  process exits with status 0, and leaves the output file as it was.
\<close>

theorem main_no_files:
  assumes "find_ts_files root_path t = []"
  shows "main e root_path (Some t) output_path w =
           (Inr 0, w\<lparr>stdout := stdout w @
              [''Searching for TypeScript files in: '' @ path_str root_path,
               ''No TypeScript files found'']\<rparr>)
    \<and> out_file (snd (main e root_path (Some t) output_path w)) = out_file w
    \<and> exit_status (fst (main e root_path (Some t) output_path w)) = 0"
  using assms by (simp add: main_def print_def exit_status_def Let_def)

theorem main_no_files_witness:
  "find_ts_files root_r no_ts = []
   \<and> main env_ok root_r (Some no_ts) [''/'', ''r'', ''combined.ts''] world0 =
        (Inr 0, \<lparr>stdout = [''Searching for TypeScript files in: /r'', ''No TypeScript files found''],
                 out_file = None\<rparr>)
   \<and> exit_status (fst (main env_ok root_r (Some no_ts) [''/'', ''r'', ''combined.ts''] world0)) = 0"
proof -
  have 1: "find_ts_files root_r no_ts = []"
    by (simp add: find_ts_files_def collect_def SKIP_DIRS_def dirs_of_def nondirs_of_def
        is_ts_simps suffix_to_prefix no_ts_def)
  from main_no_files[OF 1, of env_ok "[''/'', ''r'', ''combined.ts'']" world0] 1 show ?thesis
    by (simp add: world0_def root_r_def path_str_def is_anchor_def exit_status_def)
qed

text \<open>
  C7 (as amended). Once the two paths are resolved: when \<^verbatim>\<open>os.stat\<close> on the
  resolved root fails with an error that \<^verbatim>\<open>exists()\<close> takes as absence (\<^verbatim>\<open>ENOENT\<close>, \<^verbatim>\<open>ENOTDIR\<close>, \<^verbatim>\<open>EBADF\<close>,
  \<^verbatim>\<open>ELOOP\<close>), \<^verbatim>\<open>main\<close> prints the error message naming the path and returns 1.
  When it fails with another error, the \<^verbatim>\<open>OSError\<close> escapes and the message is
  not printed. In both cases the process exits with status 1, Discovery and
  the Combiner are not run and the output file is as it was.
\<close>

theorem main_missing_root:
  "main e root_path None output_path w =
     (if ignored_errno (stat_errno e)
      then (Inr 1, w\<lparr>stdout := stdout w @
              [''Error: Path '' @ [CHR 0x27] @ path_str root_path @ [CHR 0x27] @ '' does not exist'']\<rparr>)
      else (Inl (OSError (strerror (stat_errno e))), w))
   \<and> out_file (snd (main e root_path None output_path w)) = out_file w
   \<and> exit_status (fst (main e root_path None output_path w)) = 1"
  by (simp add: main_def print_def exit_status_def)

theorem main_missing_root_witness:
  "ignored_errno (stat_errno env_ok)
   \<and> main env_ok [''/'', ''nowhere''] None [''/'', ''r'', ''combined.ts''] world0 =
     (Inr 1, \<lparr>stdout = [''Error: Path '' @ [CHR 0x27] @ ''/nowhere'' @ [CHR 0x27] @ '' does not exist''],
              out_file = None\<rparr>)
   \<and> exit_status (fst (main env_ok [''/'', ''nowhere''] None [''/'', ''r'', ''combined.ts''] world0)) = 1"
proof -
  have 1: "ignored_errno (stat_errno env_ok)" by (simp add: env_ok_def ignored_errno_def)
  from main_missing_root[of env_ok "[''/'', ''nowhere'']" "[''/'', ''r'', ''combined.ts'']" world0] 1
  show ?thesis by (simp add: world0_def path_str_def is_anchor_def exit_status_def)
qed

text \<open>
  C7 as stated fails: the root \<^verbatim>\<open>/r/xxx...\<close> with a name of 300 characters does
  not exist, \<^verbatim>\<open>os.stat\<close> fails with \<^verbatim>\<open>ENAMETOOLONG\<close>, \<^verbatim>\<open>exists()\<close> raises, and
  \<^verbatim>\<open>main\<close> ends with the \<^verbatim>\<open>OSError\<close> without having printed its message.
\<close>

theorem root_name_too_long_counterexample:
  "length (last long_root) = 300
   \<and> stat_errno env_toolong = ENAMETOOLONG
   \<and> main env_toolong long_root None [''/'', ''r'', ''combined.ts''] world0 =
       (Inl (OSError ''[Errno 36] File name too long''), world0)
   \<and> stdout (snd (main env_toolong long_root None [''/'', ''r'', ''combined.ts''] world0)) = []"
  by (simp add: main_def env_toolong_def ignored_errno_def world0_def long_root_def)

end
